theory Spec2Isabelle
  imports Complex_Main
begin

section \<open>Flight scenario analysis (analyze\_flight.py)\<close>

text \<open>
  A shallow embedding of \<^verbatim>\<open>FlightScenarioAnalyzer\<close> and \<^verbatim>\<open>main\<close>.

  Conventions of the model:
  \<^item> Python text is a \<^typ>\<open>string\<close>; a character stands for the code point of the same
    number (code points above 255 are outside the model).
  \<^item> A float64 is a \<^typ>\<open>real option\<close>: \<open>Some r\<close> is the finite number \<open>r\<close>, computed
    in exact arithmetic, and \<open>None\<close> is NaN (the value pandas stores in a missing cell).
    Infinities and rounding are outside the model: a property stated for \<open>Some r\<close> is a
    property of finite values, and no property here rests on a result being exact that
    binary64 would round.
  \<^item> An exception is a value of type \<open>error\<close>; a function that can raise returns
    \<open>error + 'a\<close>.
  \<^item> The file system, the builtin \<^verbatim>\<open>float\<close> and the success of writing an image are
    components of an explicit environment.
  \<^item> pandas, numpy and scipy are not part of the program. The operations the program calls
    are written out after their documented behaviour: the table constructor, the
    reductions, and the conversion from Euler angles to a quaternion.
\<close>

subsection \<open>Values, errors and the environment\<close>

type_synonym f64 = "real option"

datatype error = FileNotFoundError | OSError | ValueError | IndexError

text \<open>What \<^verbatim>\<open>open(filepath, 'r')\<close> followed by \<^verbatim>\<open>readlines()\<close> finds at a path: no file,
  a file that cannot be read as text, or the lines of the file (each with its line end).\<close>

datatype file_state = Missing | Unreadable | Lines "string list"

record env =
  files :: "string \<Rightarrow> file_state"
  float_of :: "string \<Rightarrow> f64 option"
  savefig_ok :: "string \<Rightarrow> bool"

subsection \<open>Python string operations\<close>

text \<open>\<^verbatim>\<open>str.isspace\<close> on one character, for the code points below 256.\<close>

definition is_space :: "char \<Rightarrow> bool" where
  "is_space c = (of_char c \<in> set [9, 10, 11, 12, 13, 28, 29, 30, 31, 32, 133, 160 :: nat])"

text \<open>\<^verbatim>\<open>s.strip()\<close>\<close>

definition strip :: "string \<Rightarrow> string" where
  "strip s = rev (dropWhile is_space (rev (dropWhile is_space s)))"

text \<open>\<^verbatim>\<open>s.startswith(sub)\<close> and \<^verbatim>\<open>sub in s\<close>\<close>

fun startswith :: "string \<Rightarrow> string \<Rightarrow> bool" where
  "startswith s [] = True"
| "startswith [] (y # ys) = False"
| "startswith (x # xs) (y # ys) = (x = y \<and> startswith xs ys)"

fun str_in :: "string \<Rightarrow> string \<Rightarrow> bool" where
  "str_in sub [] = (sub = [])"
| "str_in sub (c # cs) = (startswith (c # cs) sub \<or> str_in sub cs)"

text \<open>\<^verbatim>\<open>s.split(sep)\<close> for a one-character separator\<close>

fun split :: "char \<Rightarrow> string \<Rightarrow> string list" where
  "split sep [] = [[]]"
| "split sep (c # cs) =
     (if c = sep then [] # split sep cs
      else (case split sep cs of [] \<Rightarrow> [[c]] | w # ws \<Rightarrow> (c # w) # ws))"

subsection \<open>read\_xplane\_data\<close>

text \<open>The condition of the list comprehension that selects the data lines:
  \<^verbatim>\<open>line.strip() and '|' in line and 'pitch' not in line\<close>\<close>

definition is_data_line :: "string \<Rightarrow> bool" where
  "is_data_line line = (strip line \<noteq> [] \<and> CHR ''|'' \<in> set line \<and> \<not> str_in ''pitch'' line)"

definition data_lines :: "string list \<Rightarrow> string list" where
  "data_lines lines = map strip (filter is_data_line lines)"

text \<open>\<^verbatim>\<open>[float(x.strip()) for x in line.split('|') if x.strip()]\<close>: the fields of one line;
  \<open>None\<close> when \<^verbatim>\<open>float\<close> raises ValueError on a field.\<close>

definition field_texts :: "string \<Rightarrow> string list" where
  "field_texts line = filter (\<lambda>x. x \<noteq> []) (map strip (split CHR ''|'' line))"

definition parse_values :: "(string \<Rightarrow> f64 option) \<Rightarrow> string \<Rightarrow> f64 list option" where
  "parse_values fl line = those (map fl (field_texts line))"

text \<open>A row of the table: the nine named columns.\<close>

record sample =
  pitch :: f64
  roll :: f64
  heading_true :: f64
  heading_mag :: f64
  mag_var :: f64
  mag_comp :: f64
  P :: f64
  Q :: f64
  R :: f64

text \<open>\<^verbatim>\<open>pd.DataFrame(data, columns=columns)\<close> on a list of lists. An empty list gives a
  table of no rows. Otherwise pandas makes the table as wide as the longest row, filling
  the cells a shorter row lacks with NaN, and raises ValueError when that width is not
  the number of column names.\<close>

definition cell :: "f64 list \<Rightarrow> nat \<Rightarrow> f64" where
  "cell vs k = (if k < length vs then vs ! k else None)"

definition mk_row :: "f64 list \<Rightarrow> sample" where
  "mk_row vs = \<lparr>pitch = cell vs 0, roll = cell vs 1, heading_true = cell vs 2,
     heading_mag = cell vs 3, mag_var = cell vs 4, mag_comp = cell vs 5,
     P = cell vs 6, Q = cell vs 7, R = cell vs 8\<rparr>"

fun width :: "f64 list list \<Rightarrow> nat" where
  "width [] = 0"
| "width (vs # rest) = max (length vs) (width rest)"

definition DataFrame :: "f64 list list \<Rightarrow> error + sample list" where
  "DataFrame data =
     (if data = [] then Inr []
      else if width data \<noteq> 9 then Inl ValueError
      else Inr (map mk_row data))"

definition read_xplane_data :: "env \<Rightarrow> string \<Rightarrow> error + sample list" where
  "read_xplane_data e filepath =
     (case files e filepath of
        Missing \<Rightarrow> Inl FileNotFoundError
      | Unreadable \<Rightarrow> Inl OSError
      | Lines lines \<Rightarrow>
          (case those (map (parse_values (float_of e)) (data_lines lines)) of
             None \<Rightarrow> Inl ValueError
           | Some data \<Rightarrow> DataFrame data))"

subsection \<open>The rotation library (scipy.spatial.transform.Rotation)\<close>

text \<open>A rotation is held as a unit quaternion in the library's scalar-last layout
  \<open>(x, y, z, w)\<close>.\<close>

type_synonym quat = "real \<times> real \<times> real \<times> real"

text \<open>The quaternion of a rotation by \<open>angle\<close> radians about one coordinate axis.\<close>

fun make_elementary_quat :: "char \<Rightarrow> real \<Rightarrow> quat" where
  "make_elementary_quat axis angle =
     (if axis = CHR ''x'' then (sin (angle / 2), 0, 0, cos (angle / 2))
      else if axis = CHR ''y'' then (0, sin (angle / 2), 0, cos (angle / 2))
      else (0, 0, sin (angle / 2), cos (angle / 2)))"

text \<open>The Hamilton product \<open>p q\<close> (the rotation \<open>q\<close> followed by the rotation \<open>p\<close>).\<close>

fun compose_quat :: "quat \<Rightarrow> quat \<Rightarrow> quat" where
  "compose_quat (px, py, pz, pw) (qx, qy, qz, qw) =
     (pw * qx + qw * px + (py * qz - pz * qy),
      pw * qy + qw * py + (pz * qx - px * qz),
      pw * qz + qw * pz + (px * qy - py * qx),
      pw * qw - (px * qx + py * qy + pz * qz))"

text \<open>The library composes the elementary rotations of a sequence from left to right:
  an intrinsic sequence multiplies each new rotation on the right, an extrinsic one on
  the left.\<close>

fun compose_rest :: "bool \<Rightarrow> quat \<Rightarrow> (char \<times> real) list \<Rightarrow> quat" where
  "compose_rest intrinsic result [] = result"
| "compose_rest intrinsic result ((axis, angle) # rest) =
     compose_rest intrinsic
       (if intrinsic then compose_quat result (make_elementary_quat axis angle)
        else compose_quat (make_elementary_quat axis angle) result)
       rest"

fun elementary_quat_compose :: "(char \<times> real) list \<Rightarrow> bool \<Rightarrow> quat" where
  "elementary_quat_compose [] intrinsic = (0, 0, 0, 1)"
| "elementary_quat_compose ((axis, angle) # rest) intrinsic =
     compose_rest intrinsic (make_elementary_quat axis angle) rest"

definition deg2rad :: "real \<Rightarrow> real" where
  "deg2rad d = d * pi / 180"

fun lower :: "char \<Rightarrow> char" where
  "lower c = (if c = CHR ''X'' then CHR ''x'' else if c = CHR ''Y'' then CHR ''y''
              else if c = CHR ''Z'' then CHR ''z'' else c)"

fun distinct_adj :: "string \<Rightarrow> bool" where
  "distinct_adj (a # b # cs) = (a \<noteq> b \<and> distinct_adj (b # cs))"
| "distinct_adj cs = True"

text \<open>\<^verbatim>\<open>Rotation.from_euler(seq, angles, degrees)\<close>: up to three axes, in upper case for
  intrinsic rotations (about the axes of the rotating body) and in lower case for
  extrinsic rotations (about the axes of the fixed frame); ValueError on any other
  sequence, on a repeated consecutive axis, and when the number of angles is not the
  number of axes.\<close>

definition from_euler :: "string \<Rightarrow> real list \<Rightarrow> bool \<Rightarrow> error + quat" where
  "from_euler seq angles degrees =
     (let intrinsic = list_all (\<lambda>c. c \<in> set ''XYZ'') seq;
          extrinsic = list_all (\<lambda>c. c \<in> set ''xyz'') seq
      in if length seq < 1 \<or> 3 < length seq then Inl ValueError
         else if \<not> (intrinsic \<or> extrinsic) then Inl ValueError
         else if \<not> distinct_adj seq then Inl ValueError
         else if length angles \<noteq> length seq then Inl ValueError
         else Inr (elementary_quat_compose
                (zip (map lower seq) (if degrees then map deg2rad angles else angles))
                intrinsic))"

text \<open>\<^verbatim>\<open>Rotation.as_quat()\<close>: the four components in the library's order, scalar
  last.\<close>

fun as_quat :: "quat \<Rightarrow> real list" where
  "as_quat (x, y, z, w) = [x, y, z, w]"

subsection \<open>Arrays and reductions (numpy)\<close>

text \<open>A two-dimensional array is the list of its rows. \<^verbatim>\<open>np.array([])\<close> of an empty
  list of rows is a one-dimensional array of no elements, so selecting a column of it,
  \<^verbatim>\<open>a[:, k]\<close>, raises IndexError.\<close>

definition col :: "f64 list list \<Rightarrow> nat \<Rightarrow> error + f64 list" where
  "col a k =
     (if a = [] \<or> \<not> list_all (\<lambda>row. k < length row) a then Inl IndexError
      else Inr (map (\<lambda>row. row ! k) a))"

definition mean_r :: "real list \<Rightarrow> real" where
  "mean_r xs = sum_list xs / real (length xs)"

definition std_r :: "real list \<Rightarrow> real" where
  "std_r xs = sqrt (mean_r (map (\<lambda>x. (x - mean_r xs) * (x - mean_r xs)) xs))"

text \<open>The reductions. A NaN among the elements makes the result NaN. Of no elements the
  mean and the standard deviation are NaN, the maximum and the range raise
  ValueError. The mean and the standard deviation are the exact ones; numpy rounds each
  step, so its results agree with them only up to rounding.\<close>

definition np_mean :: "f64 list \<Rightarrow> error + f64" where
  "np_mean a = (if a = [] then Inr None else Inr (map_option mean_r (those a)))"

definition np_std :: "f64 list \<Rightarrow> error + f64" where
  "np_std a = (if a = [] then Inr None else Inr (map_option std_r (those a)))"

fun np_max :: "f64 list \<Rightarrow> error + f64" where
  "np_max [] = Inl ValueError"
| "np_max (x # xs) = Inr (map_option (\<lambda>rs. Max (set rs)) (those (x # xs)))"

fun np_min :: "f64 list \<Rightarrow> error + f64" where
  "np_min [] = Inl ValueError"
| "np_min (x # xs) = Inr (map_option (\<lambda>rs. Min (set rs)) (those (x # xs)))"

text \<open>\<^verbatim>\<open>np.ptp\<close>: the maximum minus the minimum.\<close>

definition np_ptp :: "f64 list \<Rightarrow> error + f64" where
  "np_ptp a =
     (case np_max a of Inl err \<Rightarrow> Inl err
      | Inr hi \<Rightarrow> (case np_min a of Inl err \<Rightarrow> Inl err
          | Inr lo \<Rightarrow> Inr (case (hi, lo) of (Some h, Some l) \<Rightarrow> Some (h - l) | _ \<Rightarrow> None)))"

definition np_abs :: "f64 list \<Rightarrow> f64 list" where
  "np_abs a = map (map_option abs) a"

subsection \<open>analyze\_scenario\<close>

text \<open>\<^verbatim>\<open>self.sample_rate\<close>, set by the constructor.\<close>

definition sample_rate :: real where
  "sample_rate = 5"

text \<open>One row of \<^verbatim>\<open>quaternions\<close>:
  \<^verbatim>\<open>R.from_euler('xyz', [roll, pitch, yaw], degrees=True).as_quat()\<close> for the row
  \<^verbatim>\<open>pitch, roll, yaw\<close> of \<^verbatim>\<open>euler_data\<close>. Unpacking a row that has not three elements
  raises ValueError. A NaN among the three angles makes every component of the
  composed quaternion NaN.\<close>

fun quat_row :: "f64 list \<Rightarrow> error + f64 list" where
  "quat_row [pitch', roll', yaw'] =
     (case those [roll', pitch', yaw'] of
        None \<Rightarrow> Inr [None, None, None, None]
      | Some angles \<Rightarrow>
          (case from_euler ''xyz'' angles True of
             Inl err \<Rightarrow> Inl err
           | Inr q \<Rightarrow> Inr (map Some (as_quat q))))"
| "quat_row row = Inl ValueError"

text \<open>A list comprehension whose element can raise: the first error ends it.\<close>

fun collect :: "('a \<Rightarrow> error + 'b) \<Rightarrow> 'a list \<Rightarrow> error + 'b list" where
  "collect f [] = Inr []"
| "collect f (x # xs) =
     (case f x of
        Inl err \<Rightarrow> Inl err
      | Inr y \<Rightarrow> (case collect f xs of Inl err \<Rightarrow> Inl err | Inr ys \<Rightarrow> Inr (y # ys)))"

text \<open>A reduction applied to column \<open>k\<close> of an array, as in
  \<^verbatim>\<open>np.mean(euler_data[:, 0])\<close>.\<close>

definition stat :: "(f64 list \<Rightarrow> error + f64) \<Rightarrow> f64 list list \<Rightarrow> nat \<Rightarrow> error + f64" where
  "stat f a k = (case col a k of Inl err \<Rightarrow> Inl err | Inr c \<Rightarrow> f c)"

text \<open>A dictionary display: the values are computed in order, and the keys keep that
  order.\<close>

definition dict :: "(string \<times> (error + f64)) list \<Rightarrow> error + (string \<times> f64) list" where
  "dict kvs = collect (\<lambda>(key, v). case v of Inl err \<Rightarrow> Inl err | Inr x \<Rightarrow> Inr (key, x)) kvs"

record stats =
  euler :: "(string \<times> f64) list"
  rates :: "(string \<times> f64) list"
  quaternion :: "(string \<times> f64) list"

record results =
  time :: "f64 list"
  euler_data :: "f64 list list"
  quaternions :: "f64 list list"
  angular_rates :: "f64 list list"
  stats :: stats
  scenario :: string

definition euler_stats :: "f64 list list \<Rightarrow> error + (string \<times> f64) list" where
  "euler_stats a = dict
     [(''pitch_mean'', stat np_mean a 0),
      (''pitch_std'', stat np_std a 0),
      (''pitch_range'', stat np_ptp a 0),
      (''roll_mean'', stat np_mean a 1),
      (''roll_std'', stat np_std a 1),
      (''roll_range'', stat np_ptp a 1),
      (''heading_mean'', stat np_mean a 2),
      (''heading_std'', stat np_std a 2),
      (''heading_range'', stat np_ptp a 2)]"

definition rates_stats :: "f64 list list \<Rightarrow> error + (string \<times> f64) list" where
  "rates_stats a = dict
     [(''P_max'', stat (\<lambda>c. np_max (np_abs c)) a 0),
      (''Q_max'', stat (\<lambda>c. np_max (np_abs c)) a 1),
      (''R_max'', stat (\<lambda>c. np_max (np_abs c)) a 2),
      (''P_mean'', stat np_mean a 0),
      (''Q_mean'', stat np_mean a 1),
      (''R_mean'', stat np_mean a 2)]"

definition quaternion_stats :: "f64 list list \<Rightarrow> error + (string \<times> f64) list" where
  "quaternion_stats a = dict
     [(''w_std'', stat np_std a 0),
      (''x_std'', stat np_std a 1),
      (''y_std'', stat np_std a 2),
      (''z_std'', stat np_std a 3)]"

definition analyze_scenario :: "sample list \<Rightarrow> string \<Rightarrow> error + results" where
  "analyze_scenario data scenario_name =
     (let euler_rows = map (\<lambda>row. [pitch row, roll row, heading_true row]) data;
          rate_rows = map (\<lambda>row. [P row, Q row, R row]) data
      in case collect quat_row euler_rows of
           Inl err \<Rightarrow> Inl err
         | Inr quat_rows \<Rightarrow>
        (case euler_stats euler_rows of
           Inl err \<Rightarrow> Inl err
         | Inr es \<Rightarrow>
        (case rates_stats rate_rows of
           Inl err \<Rightarrow> Inl err
         | Inr rs \<Rightarrow>
        (case quaternion_stats quat_rows of
           Inl err \<Rightarrow> Inl err
         | Inr qs \<Rightarrow>
             Inr \<lparr>time = map (\<lambda>i. Some (real i / sample_rate)) [0..<length data],
                  euler_data = euler_rows,
                  quaternions = quat_rows,
                  angular_rates = rate_rows,
                  stats = \<lparr>euler = es, rates = rs, quaternion = qs\<rparr>,
                  scenario = scenario_name\<rparr>))))"

subsection \<open>main\<close>

text \<open>What the program shows of one scenario: the line that announces it, the printed
  statistics, the image file it saves, the warning for a missing file and the error
  message for any other exception.\<close>

datatype event =
  Analyzing string
| Statistics string stats
| Saved string
| Warning string
| ErrorMsg string error

definition scenarios :: "(string \<times> string) list" where
  "scenarios =
     [(''cruising'', ''cruising_data.txt''),
      (''climbing'', ''climbing_data.txt''),
      (''rolling'', ''rolling_data.txt''),
      (''descending'', ''descending_data.txt'')]"

text \<open>The body of the \<^verbatim>\<open>try\<close> statement for one scenario: the events it gets to show,
  and either the exception that ends it or the results it stores in
  \<^verbatim>\<open>all_results\<close>.\<close>

definition try_body :: "env \<Rightarrow> string \<Rightarrow> string \<Rightarrow> event list \<times> (error + results)" where
  "try_body e name filepath =
     (case read_xplane_data e filepath of
        Inl err \<Rightarrow> ([Analyzing name], Inl err)
      | Inr data \<Rightarrow>
          (case analyze_scenario data name of
             Inl err \<Rightarrow> ([Analyzing name], Inl err)
           | Inr res \<Rightarrow>
               if savefig_ok e (name @ ''_analysis.png'')
               then ([Analyzing name, Statistics name (stats res),
                      Saved (name @ ''_analysis.png'')], Inr res)
               else ([Analyzing name, Statistics name (stats res)], Inl OSError)))"

text \<open>The two handlers: \<^verbatim>\<open>except FileNotFoundError\<close>, then \<^verbatim>\<open>except Exception\<close>.\<close>

fun handler :: "string \<Rightarrow> error \<Rightarrow> event" where
  "handler name FileNotFoundError = Warning name"
| "handler name err = ErrorMsg name err"

record run =
  printed :: "event list"
  all_results :: "(string \<times> results) list"

definition step :: "env \<Rightarrow> run \<Rightarrow> string \<times> string \<Rightarrow> run" where
  "step e st sc =
     (case try_body e (fst sc) (snd sc) of
        (evs, Inl err) \<Rightarrow> st\<lparr>printed := printed st @ evs @ [handler (fst sc) err]\<rparr>
      | (evs, Inr res) \<Rightarrow>
          st\<lparr>printed := printed st @ evs, all_results := all_results st @ [(fst sc, res)]\<rparr>)"

definition main :: "env \<Rightarrow> run" where
  "main e = foldl (step e) \<lparr>printed = [], all_results = []\<rparr> scenarios"

section \<open>Auxiliary definitions\<close>

subsection \<open>Observations of the loop\<close>

text \<open>What one iteration of the loop of \<^verbatim>\<open>main\<close> prints, and what it adds to
  \<^verbatim>\<open>all_results\<close>.\<close>

definition scenario_output :: "env \<Rightarrow> string \<times> string \<Rightarrow> event list" where
  "scenario_output e sc =
     (case try_body e (fst sc) (snd sc) of
        (evs, Inl err) \<Rightarrow> evs @ [handler (fst sc) err]
      | (evs, Inr res) \<Rightarrow> evs)"

definition scenario_result :: "env \<Rightarrow> string \<times> string \<Rightarrow> (string \<times> results) list" where
  "scenario_result e sc =
     (case try_body e (fst sc) (snd sc) of
        (evs, Inl err) \<Rightarrow> []
      | (evs, Inr res) \<Rightarrow> [(fst sc, res)])"

text \<open>The rows of \<^verbatim>\<open>quaternions\<close> for a table (the comprehension never raises, see
  \<open>collect_quat_rows\<close> below).\<close>

definition quat_rows :: "sample list \<Rightarrow> f64 list list" where
  "quat_rows data = map (\<lambda>row. projr (quat_row [pitch row, roll row, heading_true row])) data"

subsection \<open>The specification's words\<close>

text \<open>A line contains a token when the token is a contiguous part of it. A data line, as
  the specification words it: not empty once stripped, with a field separator, and
  without the token \<^verbatim>\<open>pitch\<close>. A valid nine-field data line is a data line whose fields are
  nine texts that \<^verbatim>\<open>float\<close> accepts.\<close>

definition contains_token :: "string \<Rightarrow> string \<Rightarrow> bool" where
  "contains_token tok s = (\<exists>pre suf. s = pre @ tok @ suf)"

definition spec_data_line :: "string \<Rightarrow> bool" where
  "spec_data_line line =
     (strip line \<noteq> [] \<and> CHR ''|'' \<in> set line \<and> \<not> contains_token ''pitch'' line)"

definition valid_line :: "(string \<Rightarrow> f64 option) \<Rightarrow> string \<Rightarrow> bool" where
  "valid_line fl line =
     (spec_data_line line \<and>
      (case parse_values fl (strip line) of None \<Rightarrow> False | Some vs \<Rightarrow> length vs = 9))"

text \<open>Writing a parsed line again: \<^verbatim>\<open>sep.join(texts)\<close>, and the characters of the text of a
  float (digits, sign, point, exponent, \<^verbatim>\<open>inf\<close>, \<^verbatim>\<open>nan\<close>).\<close>

fun join :: "string \<Rightarrow> string list \<Rightarrow> string" where
  "join sep [] = []"
| "join sep [x] = x"
| "join sep (x # y # ys) = x @ sep @ join sep (y # ys)"

definition float_char :: "char \<Rightarrow> bool" where
  "float_char c = (c \<in> set ''0123456789+-.einfa'')"

text \<open>The two readings of a rotation sequence x, y, z. Extrinsic: each rotation is about an
  axis of the fixed frame, so a later rotation multiplies on the left. Intrinsic: each
  rotation is about an axis of the rotated body, so a later rotation multiplies on the
  right.\<close>

definition extrinsic_xyz :: "real \<Rightarrow> real \<Rightarrow> real \<Rightarrow> quat" where
  "extrinsic_xyz ax ay az =
     compose_quat (make_elementary_quat CHR ''z'' az)
       (compose_quat (make_elementary_quat CHR ''y'' ay) (make_elementary_quat CHR ''x'' ax))"

definition intrinsic_xyz :: "real \<Rightarrow> real \<Rightarrow> real \<Rightarrow> quat" where
  "intrinsic_xyz ax ay az =
     compose_quat
       (compose_quat (make_elementary_quat CHR ''x'' ax) (make_elementary_quat CHR ''y'' ay))
       (make_elementary_quat CHR ''z'' az)"

text \<open>The squared norm of a quaternion, the norm of its components, and the test that a
  row of \<^verbatim>\<open>quaternions\<close> has unit norm within a tolerance; a comparison with NaN is false.\<close>

definition norm2 :: "quat \<Rightarrow> real" where
  "norm2 q = (case q of (x, y, z, w) \<Rightarrow> x * x + y * y + z * z + w * w)"

definition quat_norm :: "real list \<Rightarrow> real" where
  "quat_norm cs = sqrt (sum_list (map (\<lambda>c. c * c) cs))"

definition unit_norm_within :: "real \<Rightarrow> f64 list \<Rightarrow> bool" where
  "unit_norm_within tol q =
     (case those q of None \<Rightarrow> False | Some cs \<Rightarrow> \<bar>quat_norm cs - 1\<bar> \<le> tol)"

subsection \<open>Example inputs\<close>

text \<open>An instance of the builtin \<^verbatim>\<open>float\<close> for the examples: it accepts the strings of
  decimal digits, with their value, and no other string; and texts for the values
  \<open>0\<close>, \<open>1\<close> and \<open>180\<close> that it reads back.\<close>

definition is_digit :: "char \<Rightarrow> bool" where
  "is_digit c = (48 \<le> (of_char c :: nat) \<and> (of_char c :: nat) \<le> 57)"

definition float_digits :: "string \<Rightarrow> f64 option" where
  "float_digits s =
     (if s \<noteq> [] \<and> list_all is_digit s
      then Some (Some (real (foldl (\<lambda>n c. 10 * n + (of_char c - 48)) 0 s)))
      else None)"

definition repr_small :: "f64 \<Rightarrow> string" where
  "repr_small v =
     (if v = Some 0 then ''0'' else if v = Some 1 then ''1''
      else if v = Some 180 then ''180'' else ''nan'')"

text \<open>A file system with a header and three data lines for the first scenario, a file
  without data lines for the second, and no file for the others.\<close>

definition example_header :: string where
  "example_header =
     ''pitch | roll | heading_true | heading_mag | mag_var | mag_comp | P | Q | R\<newline>''"

definition example_lines :: "string list" where
  "example_lines =
     [''1 | 2 | 3 | 4 | 5 | 6 | 7 | 8 | 9\<newline>'',
      ''  10|20|30|40|50|60|70|80|90\<newline>'',
      ''0 | 0 | 180 | 0 | 0 | 0 | 1 | 1 | 1'']"

definition example_env :: env where
  "example_env =
     \<lparr>files = (\<lambda>p.
        if p = ''cruising_data.txt'' then Lines (example_header # example_lines)
        else if p = ''climbing_data.txt'' then
          Lines [''pitch | roll\<newline>'', ''\<newline>'', ''no separator here\<newline>'']
        else Missing),
      float_of = float_digits,
      savefig_ok = (\<lambda>p. True)\<rparr>"

text \<open>Rows with a given pitch, roll and heading; the other six columns are zero.\<close>

definition attitude_row :: "f64 \<Rightarrow> f64 \<Rightarrow> f64 \<Rightarrow> sample" where
  "attitude_row p r y = mk_row [p, r, y, Some 0, Some 0, Some 0, Some 0, Some 0, Some 0]"

definition level_row :: "real \<Rightarrow> sample" where
  "level_row p = mk_row [Some p, Some 0, Some 0, Some 0, Some 0, Some 0, Some 0, Some 0, Some 0]"

section \<open>Properties\<close>

subsection \<open>Text operations\<close>

lemma startswith_iff: "startswith s sub \<longleftrightarrow> (\<exists>suf. s = sub @ suf)"
  by (induction s sub rule: startswith.induct) auto

lemma str_in_iff: "str_in sub s \<longleftrightarrow> contains_token sub s"
proof (induction s)
  case Nil
  then show ?case by (auto simp: contains_token_def)
next
  case (Cons c cs)
  show ?case
  proof
    assume "str_in sub (c # cs)"
    then consider "startswith (c # cs) sub" | "str_in sub cs" by auto
    then show "contains_token sub (c # cs)"
    proof cases
      case 1
      then obtain suf where "c # cs = sub @ suf" by (auto simp: startswith_iff)
      then have "c # cs = [] @ sub @ suf" by simp
      then show ?thesis unfolding contains_token_def by blast
    next
      case 2
      then obtain pre suf where "cs = pre @ sub @ suf" using Cons by (auto simp: contains_token_def)
      then have "c # cs = (c # pre) @ sub @ suf" by simp
      then show ?thesis unfolding contains_token_def by blast
    qed
  next
    assume "contains_token sub (c # cs)"
    then obtain pre suf where eq: "c # cs = pre @ sub @ suf" by (auto simp: contains_token_def)
    show "str_in sub (c # cs)"
    proof (cases pre)
      case Nil
      then have "startswith (c # cs) sub" using eq by (auto simp: startswith_iff)
      then show ?thesis by simp
    next
      case (Cons p ps)
      then have "cs = ps @ sub @ suf" using eq by simp
      then have "contains_token sub cs" unfolding contains_token_def by blast
      then show ?thesis using Cons.IH by simp
    qed
  qed
qed

lemma str_in_set: "str_in sub s \<Longrightarrow> set sub \<subseteq> set s"
  by (auto simp: str_in_iff contains_token_def)

lemma is_data_line_iff: "is_data_line line \<longleftrightarrow> spec_data_line line"
  by (simp add: is_data_line_def spec_data_line_def str_in_iff)

lemma data_lines_spec: "data_lines lines = map strip (filter spec_data_line lines)"
  by (simp add: data_lines_def is_data_line_iff [abs_def])

lemma strip_no_space:
  assumes "\<forall>c \<in> set s. \<not> is_space c"
  shows "strip s = s"
proof (cases s)
  case Nil
  then show ?thesis by (simp add: strip_def)
next
  case (Cons c cs)
  then have "\<not> is_space (hd s)" using assms by simp
  then have d: "dropWhile is_space s = s" by (simp add: dropWhile_eq_self_iff)
  have "s \<noteq> []" using Cons by simp
  then have "last s \<in> set s" by simp
  then have "\<not> is_space (hd (rev s))" using assms by (simp add: hd_rev)
  then have "dropWhile is_space (rev s) = rev s" by (simp add: dropWhile_eq_self_iff)
  then show ?thesis by (simp add: strip_def d)
qed

lemma split_no_sep: "sep \<notin> set x \<Longrightarrow> split sep x = [x]"
  by (induction x) auto

lemma split_append_sep:
  "sep \<notin> set x \<Longrightarrow> split sep (x @ sep # rest) = x # split sep rest"
  by (induction x) auto

lemma split_join:
  assumes "xs \<noteq> []" and "\<forall>x \<in> set xs. sep \<notin> set x"
  shows "split sep (join [sep] xs) = xs"
  using assms
proof (induction "[sep]" xs rule: join.induct)
  case 1
  then show ?case by simp
next
  case (2 x)
  then show ?case by (simp add: split_no_sep)
next
  case (3 x y ys)
  then show ?case by (simp add: split_append_sep)
qed

lemma set_join: "set (join sep xs) \<subseteq> set sep \<union> \<Union> (set ` set xs)"
  by (induction sep xs rule: join.induct) auto

lemma sep_in_join: "2 \<le> length xs \<Longrightarrow> set sep \<subseteq> set (join sep xs)"
  by (cases xs; cases "tl xs") auto

lemma join_nonempty: "xs \<noteq> [] \<Longrightarrow> hd xs \<noteq> [] \<Longrightarrow> join sep xs \<noteq> []"
  by (cases xs; cases "tl xs") auto

lemma those_map_Some: "those (map Some xs) = Some xs"
  by (induction xs) simp_all

lemma those_map_roundtrip:
  "\<forall>v \<in> set vs. fl (repr v) = Some v \<Longrightarrow> those (map fl (map repr vs)) = Some vs"
  by (induction vs) simp_all

lemma float_char_facts:
  "float_char c \<Longrightarrow> \<not> is_space c" "float_char c \<Longrightarrow> c \<noteq> CHR ''|''"
  "float_char c \<Longrightarrow> c \<noteq> CHR ''p''"
  by (auto simp: float_char_def is_space_def)

lemma bar_not_space: "\<not> is_space CHR ''|''"
  by (simp add: is_space_def)

subsection \<open>The parser\<close>

text \<open>Claim C3. The parser keeps a line exactly when it is not empty once stripped, contains
  the separator and does not contain the token \<^verbatim>\<open>pitch\<close>; a file of a header line with
  that token and three valid nine-field data lines is parsed into a table of three rows.\<close>

theorem header_excluded_three_rows:
  assumes "files e filepath = Lines [header, l1, l2, l3]"
    and "contains_token ''pitch'' header"
    and "valid_line (float_of e) l1" and "valid_line (float_of e) l2"
    and "valid_line (float_of e) l3"
  shows "data_lines lines = map strip (filter spec_data_line lines) \<and>
         (\<exists>tbl. read_xplane_data e filepath = Inr tbl \<and> length tbl = 3)"
proof -
  have "\<not> spec_data_line header"
    using assms(2) by (simp add: spec_data_line_def)
  moreover have "spec_data_line l1" "spec_data_line l2" "spec_data_line l3"
    using assms(3-5) by (simp_all add: valid_line_def)
  ultimately have dl: "data_lines [header, l1, l2, l3] = [strip l1, strip l2, strip l3]"
    by (simp add: data_lines_spec)
  obtain v1 v2 v3 where
    v: "parse_values (float_of e) (strip l1) = Some v1" "length v1 = 9"
       "parse_values (float_of e) (strip l2) = Some v2" "length v2 = 9"
       "parse_values (float_of e) (strip l3) = Some v3" "length v3 = 9"
    using assms(3-5) by (auto simp: valid_line_def split: option.splits)
  have "read_xplane_data e filepath = Inr (map mk_row [v1, v2, v3])"
    using assms(1) dl v by (simp add: read_xplane_data_def DataFrame_def)
  then show ?thesis by (simp add: data_lines_spec)
qed

lemmas eval_line = valid_line_def is_data_line_iff [symmetric] is_data_line_def strip_def
  is_space_def parse_values_def field_texts_def float_digits_def is_digit_def

theorem header_excluded_three_rows_witness:
  "files example_env ''cruising_data.txt'' =
     Lines [example_header, example_lines ! 0, example_lines ! 1, example_lines ! 2] \<and>
   contains_token ''pitch'' example_header \<and>
   valid_line (float_of example_env) (example_lines ! 0) \<and>
   valid_line (float_of example_env) (example_lines ! 1) \<and>
   valid_line (float_of example_env) (example_lines ! 2) \<and>
   (\<exists>tbl. read_xplane_data example_env ''cruising_data.txt'' = Inr tbl \<and> length tbl = 3)"
proof -
  have f: "files example_env ''cruising_data.txt'' =
     Lines [example_header, example_lines ! 0, example_lines ! 1, example_lines ! 2]"
    by (simp add: example_env_def example_lines_def)
  have h: "contains_token ''pitch'' example_header"
    by (simp add: str_in_iff [symmetric] example_header_def)
  have fl: "float_of example_env = float_digits"
    by (simp add: example_env_def)
  have a: "valid_line (float_of example_env) (example_lines ! 0)"
    unfolding fl by (simp add: example_lines_def eval_line)
  have b: "valid_line (float_of example_env) (example_lines ! 1)"
    unfolding fl by (simp add: example_lines_def eval_line)
  have c: "valid_line (float_of example_env) (example_lines ! 2)"
    unfolding fl by (simp add: example_lines_def eval_line)
  have r: "\<exists>tbl. read_xplane_data example_env ''cruising_data.txt'' = Inr tbl \<and> length tbl = 3"
    using header_excluded_three_rows [OF f h a b c] by (rule conjunct2)
  show ?thesis
    by (intro conjI f h a b c r)
qed

text \<open>Claim C4. For a data line whose nine fields parse to the values \<open>vs\<close>, writing the values
  joined by the separator and parsing that line again gives \<open>vs\<close>. The builtin \<^verbatim>\<open>float\<close> and
  the text of a float are parameters: each text is not empty, is made of the characters of
  float literals, and \<^verbatim>\<open>float\<close> reads it back as the value.\<close>

theorem parse_serialize_roundtrip:
  assumes "is_data_line line" and "parse_values fl (strip line) = Some vs" and "length vs = 9"
    and "\<forall>v \<in> set vs. fl (repr v) = Some v \<and> repr v \<noteq> [] \<and> list_all float_char (repr v)"
  shows "is_data_line (join ''|'' (map repr vs)) \<and>
         parse_values fl (strip (join ''|'' (map repr vs))) = Some vs"
proof -
  define texts where "texts = map repr vs"
  define ln where "ln = join ''|'' texts"
  have ne: "texts \<noteq> []" using assms(3) by (auto simp: texts_def)
  have len: "2 \<le> length texts" using assms(3) by (simp add: texts_def)
  have fc: "float_char c" if "x \<in> set texts" "c \<in> set x" for x c
    using assms(4) that by (auto simp: list_all_iff texts_def)
  have nonempty_texts: "x \<noteq> []" if "x \<in> set texts" for x
    using assms(4) that by (auto simp: texts_def)
  have nosep: "\<forall>x \<in> set texts. CHR ''|'' \<notin> set x"
    using fc float_char_facts(2) by blast
  have chars: "c = CHR ''|'' \<or> float_char c" if "c \<in> set ln" for c
  proof -
    have "c \<in> set ''|'' \<union> \<Union> (set ` set texts)"
      using that set_join [of "''|''" texts] by (auto simp: ln_def)
    then show ?thesis using fc by auto
  qed
  have nospace: "\<forall>c \<in> set ln. \<not> is_space c"
    using chars float_char_facts(1) bar_not_space by blast
  have st: "strip ln = ln" using nospace by (rule strip_no_space)
  have "hd texts \<in> set texts" using ne by simp
  then have "hd texts \<noteq> []" by (rule nonempty_texts)
  with ne have nonempty: "ln \<noteq> []" unfolding ln_def by (rule join_nonempty)
  have bar: "CHR ''|'' \<in> set ln"
    using sep_in_join [OF len, of "''|''"] by (simp add: ln_def)
  have "CHR ''p'' \<notin> set ln"
  proof
    assume "CHR ''p'' \<in> set ln"
    then have "CHR ''p'' = CHR ''|'' \<or> float_char CHR ''p''" by (rule chars)
    then show False using float_char_facts(3) [of "CHR ''p''"] by simp
  qed
  moreover have "CHR ''p'' \<in> set ''pitch''" by simp
  ultimately have nopitch: "\<not> str_in ''pitch'' ln"
    using str_in_set [of "''pitch''" ln] by blast
  have dl: "is_data_line ln"
    unfolding is_data_line_def st using nonempty bar nopitch by simp
  have sp: "split CHR ''|'' ln = texts"
    unfolding ln_def using ne nosep by (rule split_join)
  have ms: "map strip texts = texts"
  proof -
    have "strip x = x" if "x \<in> set texts" for x
    proof (rule strip_no_space)
      show "\<forall>c \<in> set x. \<not> is_space c" using that fc float_char_facts(1) by blast
    qed
    then show ?thesis by (simp add: map_idI)
  qed
  have fi: "filter (\<lambda>x. x \<noteq> []) texts = texts"
    using nonempty_texts by (simp add: filter_id_conv)
  have ft: "field_texts ln = texts"
    by (simp add: field_texts_def sp ms fi)
  have "those (map fl texts) = Some vs"
    unfolding texts_def using assms(4) by (intro those_map_roundtrip) blast
  then have "parse_values fl (strip ln) = Some vs"
    by (simp add: parse_values_def st ft)
  with dl show ?thesis by (simp add: ln_def texts_def)
qed

theorem parse_serialize_roundtrip_witness:
  "is_data_line (example_lines ! 2) \<and>
   parse_values float_digits (strip (example_lines ! 2)) =
     Some [Some 0, Some 0, Some 180, Some 0, Some 0, Some 0, Some 1, Some 1, Some 1] \<and>
   list_all (\<lambda>v. float_digits (repr_small v) = Some v \<and> repr_small v \<noteq> [] \<and>
       list_all float_char (repr_small v))
     [Some 0, Some 0, Some 180, Some 0, Some 0, Some 0, Some 1, Some 1, Some 1] \<and>
   join ''|'' (map repr_small
     [Some 0, Some 0, Some 180, Some 0, Some 0, Some 0, Some 1, Some 1, Some 1]) =
     ''0|0|180|0|0|0|1|1|1'' \<and>
   parse_values float_digits (strip ''0|0|180|0|0|0|1|1|1'') =
     Some [Some 0, Some 0, Some 180, Some 0, Some 0, Some 0, Some 1, Some 1, Some 1]"
proof -
  define vs :: "f64 list" where
    "vs = [Some 0, Some 0, Some 180, Some 0, Some 0, Some 0, Some 1, Some 1, Some 1]"
  have d: "is_data_line (example_lines ! 2)"
    by (simp add: example_lines_def is_data_line_def strip_def is_space_def)
  have p: "parse_values float_digits (strip (example_lines ! 2)) = Some vs"
    by (simp add: vs_def example_lines_def strip_def is_space_def parse_values_def
        field_texts_def float_digits_def is_digit_def)
  have l: "length vs = 9" by (simp add: vs_def)
  have h: "\<forall>v \<in> set vs. float_digits (repr_small v) = Some v \<and> repr_small v \<noteq> [] \<and>
       list_all float_char (repr_small v)"
    by (simp add: vs_def repr_small_def float_digits_def is_digit_def float_char_def)
  have j: "join ''|'' (map repr_small vs) = ''0|0|180|0|0|0|1|1|1''"
    by (simp add: vs_def repr_small_def)
  have r: "parse_values float_digits (strip ''0|0|180|0|0|0|1|1|1'') = Some vs"
    using parse_serialize_roundtrip [OF d p l h] unfolding j by (rule conjunct2)
  have h': "list_all (\<lambda>v. float_digits (repr_small v) = Some v \<and> repr_small v \<noteq> [] \<and>
       list_all float_char (repr_small v)) vs"
    using h unfolding list_all_iff .
  show ?thesis
    using d p h' j r unfolding vs_def by (intro conjI)
qed

subsection \<open>The rotation library\<close>

lemma from_euler_xyz:
  "from_euler ''xyz'' [a, b, c] True = Inr (extrinsic_xyz (deg2rad a) (deg2rad b) (deg2rad c))"
  by (simp add: from_euler_def Let_def extrinsic_xyz_def)

lemma from_euler_XYZ:
  "from_euler ''XYZ'' [a, b, c] True = Inr (intrinsic_xyz (deg2rad a) (deg2rad b) (deg2rad c))"
  by (simp add: from_euler_def Let_def intrinsic_xyz_def)

lemma extrinsic_xyz_components:
  "extrinsic_xyz a b c =
     (sin (a / 2) * cos (b / 2) * cos (c / 2) - cos (a / 2) * sin (b / 2) * sin (c / 2),
      cos (a / 2) * sin (b / 2) * cos (c / 2) + sin (a / 2) * cos (b / 2) * sin (c / 2),
      cos (a / 2) * cos (b / 2) * sin (c / 2) - sin (a / 2) * sin (b / 2) * cos (c / 2),
      cos (a / 2) * cos (b / 2) * cos (c / 2) + sin (a / 2) * sin (b / 2) * sin (c / 2))"
  by (simp add: extrinsic_xyz_def algebra_simps)

lemma norm2_compose: "norm2 (compose_quat p q) = norm2 p * norm2 q"
  by (cases p; cases q) (simp add: norm2_def algebra_simps)

lemma norm2_elementary: "norm2 (make_elementary_quat axis angle) = 1"
proof -
  have "sin (angle / 2) * sin (angle / 2) + cos (angle / 2) * cos (angle / 2) = 1"
    using sin_cos_squared_add [of "angle / 2"] by (simp add: power2_eq_square)
  then show ?thesis by (simp add: norm2_def)
qed

lemma norm2_extrinsic_xyz: "norm2 (extrinsic_xyz a b c) = 1"
  by (simp only: extrinsic_xyz_def norm2_compose norm2_elementary mult_1)

lemma quat_norm_as_quat: "quat_norm (as_quat q) = sqrt (norm2 q)"
  by (cases q) (simp add: quat_norm_def norm2_def)

lemma as_quat_length: "length (as_quat q) = 4"
  by (cases q) simp

lemma half_right_angle: "deg2rad 90 / 2 = pi / 4"
  by (simp add: deg2rad_def)

lemma extrinsic_at_right_angles:
  "extrinsic_xyz (deg2rad 90) (deg2rad 90) (deg2rad 0) = (1/2, 1/2, - 1/2, 1/2)"
  by (simp add: extrinsic_xyz_def half_right_angle sin_45 cos_45 deg2rad_def)

lemma intrinsic_at_right_angles:
  "intrinsic_xyz (deg2rad 90) (deg2rad 90) (deg2rad 0) = (1/2, 1/2, 1/2, 1/2)"
  by (simp add: intrinsic_xyz_def half_right_angle sin_45 cos_45 deg2rad_def)

subsection \<open>The analysis of a table\<close>

lemma analyze_empty: "analyze_scenario [] n = Inl IndexError"
  by (simp add: analyze_scenario_def euler_stats_def dict_def stat_def col_def)

lemma quat_row_numbers:
  "quat_row [Some p, Some r, Some y] =
     Inr (map Some (as_quat (extrinsic_xyz (deg2rad r) (deg2rad p) (deg2rad y))))"
  by (simp add: from_euler_xyz)

lemma quat_row_nan:
  "p = None \<or> r = None \<or> y = None \<Longrightarrow> quat_row [p, r, y] = Inr [None, None, None, None]"
  by (auto split: option.splits)

lemma quat_row_total: "\<exists>q. quat_row [p, r, y] = Inr q \<and> length q = 4"
proof (cases "p = None \<or> r = None \<or> y = None")
  case True
  then have "quat_row [p, r, y] = Inr [None, None, None, None]"
    by (rule quat_row_nan)
  moreover have "length [None, None, None, None :: f64] = 4" by simp
  ultimately show ?thesis by blast
next
  case False
  then obtain a b c where "p = Some a" "r = Some b" "y = Some c" by auto
  moreover have "length (map Some (as_quat (extrinsic_xyz (deg2rad b) (deg2rad a) (deg2rad c)))) = 4"
    by (simp add: as_quat_length)
  ultimately show ?thesis using quat_row_numbers by blast
qed

lemma collect_total:
  assumes "\<And>x. x \<in> set xs \<Longrightarrow> \<exists>y. f x = Inr y"
  shows "collect f xs = Inr (map (\<lambda>x. projr (f x)) xs)"
  using assms
proof (induction xs)
  case Nil
  then show ?case by simp
next
  case (Cons x xs)
  then obtain y where "f x = Inr y" by auto
  then show ?case using Cons by simp
qed

lemma collect_quat_rows:
  fixes data :: "sample list"
  shows "collect quat_row (map (\<lambda>row. [pitch row, roll row, heading_true row]) data) =
     Inr (map (\<lambda>row. projr (quat_row [pitch row, roll row, heading_true row])) data)"
proof -
  have "collect quat_row (map (\<lambda>row. [pitch row, roll row, heading_true row]) data) =
     Inr (map (\<lambda>x. projr (quat_row x)) (map (\<lambda>row. [pitch row, roll row, heading_true row]) data))"
  proof (rule collect_total)
    fix x assume "x \<in> set (map (\<lambda>row. [pitch row, roll row, heading_true row]) data)"
    then obtain row :: sample where "x = [pitch row, roll row, heading_true row]" by auto
    then show "\<exists>y. quat_row x = Inr y" using quat_row_total by blast
  qed
  then show ?thesis by (simp only: map_map comp_def)
qed

lemma quat_rows_length: "list_all (\<lambda>q. length q = 4) (quat_rows data)"
proof -
  have "length (projr (quat_row [p, r, y])) = 4" for p r y
    using quat_row_total [of p r y] by auto
  then show ?thesis by (simp add: quat_rows_def list_all_iff)
qed

lemma np_ptp_nonempty:
  "a \<noteq> [] \<Longrightarrow> np_ptp a =
     Inr (case those a of None \<Rightarrow> None | Some rs \<Rightarrow> Some (Max (set rs) - Min (set rs)))"
  by (cases a) (auto simp: np_ptp_def split: option.splits)

lemma np_max_nonempty:
  "a \<noteq> [] \<Longrightarrow> np_max a = Inr (map_option (\<lambda>rs. Max (set rs)) (those a))"
  by (cases a) auto

lemma np_mean_nonempty: "a \<noteq> [] \<Longrightarrow> np_mean a = Inr (map_option mean_r (those a))"
  by (simp add: np_mean_def)

lemma np_std_nonempty: "a \<noteq> [] \<Longrightarrow> np_std a = Inr (map_option std_r (those a))"
  by (simp add: np_std_def)

lemma euler_stats_nonempty:
  fixes data :: "sample list"
  assumes "data \<noteq> []"
  shows "euler_stats (map (\<lambda>row. [pitch row, roll row, heading_true row]) data) = Inr
     [(''pitch_mean'', map_option mean_r (those (map pitch data))),
      (''pitch_std'', map_option std_r (those (map pitch data))),
      (''pitch_range'', case those (map pitch data) of None \<Rightarrow> None | Some rs \<Rightarrow> Some (Max (set rs) - Min (set rs))),
      (''roll_mean'', map_option mean_r (those (map roll data))),
      (''roll_std'', map_option std_r (those (map roll data))),
      (''roll_range'', case those (map roll data) of None \<Rightarrow> None | Some rs \<Rightarrow> Some (Max (set rs) - Min (set rs))),
      (''heading_mean'', map_option mean_r (those (map heading_true data))),
      (''heading_std'', map_option std_r (those (map heading_true data))),
      (''heading_range'', case those (map heading_true data) of None \<Rightarrow> None | Some rs \<Rightarrow> Some (Max (set rs) - Min (set rs)))]"
  using assms
  by (simp add: euler_stats_def dict_def stat_def col_def list_all_iff comp_def
      np_ptp_nonempty np_mean_nonempty np_std_nonempty)

lemma rates_stats_nonempty:
  fixes data :: "sample list"
  assumes "data \<noteq> []"
  shows "rates_stats (map (\<lambda>row. [P row, Q row, R row]) data) = Inr
     [(''P_max'', map_option (\<lambda>rs. Max (set rs)) (those (np_abs (map P data)))),
      (''Q_max'', map_option (\<lambda>rs. Max (set rs)) (those (np_abs (map Q data)))),
      (''R_max'', map_option (\<lambda>rs. Max (set rs)) (those (np_abs (map R data)))),
      (''P_mean'', map_option mean_r (those (map P data))),
      (''Q_mean'', map_option mean_r (those (map Q data))),
      (''R_mean'', map_option mean_r (those (map R data)))]"
  using assms
  by (simp add: rates_stats_def dict_def stat_def col_def list_all_iff comp_def
      np_max_nonempty np_mean_nonempty np_abs_def)

lemma quaternion_stats_nonempty:
  assumes "qs \<noteq> []" and "list_all (\<lambda>q. length q = 4) qs"
  shows "quaternion_stats qs = Inr
     [(''w_std'', map_option std_r (those (map (\<lambda>q. q ! 0) qs))),
      (''x_std'', map_option std_r (those (map (\<lambda>q. q ! 1) qs))),
      (''y_std'', map_option std_r (those (map (\<lambda>q. q ! 2) qs))),
      (''z_std'', map_option std_r (those (map (\<lambda>q. q ! 3) qs)))]"
proof -
  have "list_all (\<lambda>row. k < length row) qs" if "k < 4" for k
    using assms(2) that by (auto simp: list_all_iff)
  then have "col qs k = Inr (map (\<lambda>q. q ! k) qs)" if "k < 4" for k
    using assms(1) that by (simp add: col_def)
  then show ?thesis
    using assms(1) by (simp add: quaternion_stats_def dict_def stat_def np_std_nonempty)
qed

text \<open>The analysis of a table with a row returns, and this is its result.\<close>

lemma analyze_nonempty:
  assumes "data \<noteq> []"
  shows "analyze_scenario data n = Inr
     \<lparr>time = map (\<lambda>i. Some (real i / 5)) [0..<length data],
      euler_data = map (\<lambda>row. [pitch row, roll row, heading_true row]) data,
      quaternions = quat_rows data,
      angular_rates = map (\<lambda>row. [P row, Q row, R row]) data,
      stats = \<lparr>euler = projr (euler_stats (map (\<lambda>row. [pitch row, roll row, heading_true row]) data)),
               rates = projr (rates_stats (map (\<lambda>row. [P row, Q row, R row]) data)),
               quaternion = projr (quaternion_stats (quat_rows data))\<rparr>,
      scenario = n\<rparr>"
proof -
  have q: "quat_rows data \<noteq> []" using assms by (simp add: quat_rows_def)
  show ?thesis
    unfolding analyze_scenario_def Let_def collect_quat_rows quat_rows_def [symmetric]
    by (simp add: euler_stats_nonempty [OF assms] rates_stats_nonempty [OF assms]
        quaternion_stats_nonempty [OF q quat_rows_length] sample_rate_def)
qed

lemma quaternions_nth:
  assumes "analyze_scenario data name = Inr res" and "i < length data"
  shows "Inr (quaternions res ! i) =
         quat_row [pitch (data ! i), roll (data ! i), heading_true (data ! i)]"
proof -
  have ne: "data \<noteq> []" using assms(2) by auto
  have "quaternions res = quat_rows data"
    using assms(1) by (auto simp: analyze_nonempty [OF ne])
  then have "quaternions res ! i =
      projr (quat_row [pitch (data ! i), roll (data ! i), heading_true (data ! i)])"
    using assms(2) by (simp add: quat_rows_def)
  then show ?thesis
    using quat_row_total [of "pitch (data ! i)" "roll (data ! i)" "heading_true (data ! i)"]
    by auto
qed

lemma quaternions_rows:
  "data \<noteq> [] \<Longrightarrow> map_sum id quaternions (analyze_scenario data name) = Inr (quat_rows data)"
  by (simp add: analyze_nonempty)

lemma w_std_key:
  "data \<noteq> [] \<Longrightarrow>
     map_sum id (\<lambda>res. map_of (quaternion (stats res)) ''w_std'') (analyze_scenario data name) =
     Inr (Some (map_option std_r (those (map (\<lambda>q. q ! 0) (quat_rows data)))))"
proof -
  assume ne: "data \<noteq> []"
  then have q: "quat_rows data \<noteq> []" by (simp add: quat_rows_def)
  show ?thesis
    by (simp add: analyze_nonempty [OF ne] quaternion_stats_nonempty [OF q quat_rows_length])
qed

lemma scalar_std_key:
  "data \<noteq> [] \<Longrightarrow>
     map_sum id (\<lambda>res. np_std (map (\<lambda>q. q ! 3) (quaternions res))) (analyze_scenario data name) =
     Inr (np_std (map (\<lambda>q. q ! 3) (quat_rows data)))"
  by (simp add: analyze_nonempty)

lemma attitude_row_simps:
  "pitch (attitude_row p r y) = p" "roll (attitude_row p r y) = r"
  "heading_true (attitude_row p r y) = y"
  by (simp_all add: attitude_row_def mk_row_def cell_def)

lemma those_replicate_Some: "those (replicate n (Some x)) = Some (replicate n x)"
  by (induction n) simp_all

lemma those_replicate_None: "0 < n \<Longrightarrow> those (replicate n None) = None"
  by (cases n) simp_all

lemma map_replicate_const: "map f (replicate n x) = replicate n (f x)"
  by simp

lemma set_replicate_pos: "0 < n \<Longrightarrow> set (replicate n x) = {x}"
  by (cases n) auto

lemma std_half: "std_r [1, 0] = 1 / 2"
  by (simp add: std_r_def mean_r_def real_sqrt_divide)

lemma quat_rows_turn:
  "quat_rows [attitude_row (Some 0) (Some 0) (Some 0), attitude_row (Some 0) (Some 0) (Some 180)] =
     [[Some 0, Some 0, Some 0, Some 1], [Some 0, Some 0, Some 1, Some 0]]"
  by (simp add: quat_rows_def attitude_row_simps from_euler_xyz extrinsic_xyz_def deg2rad_def)

text \<open>Claim C6. For a table whose pitch column holds the numbers \<open>xs\<close>, the analysis returns,
  \<^verbatim>\<open>pitch_mean\<close> is the arithmetic mean of \<open>xs\<close> and \<^verbatim>\<open>pitch_range\<close> is the largest minus the
  smallest of \<open>xs\<close>; for the column \<open>0, 10, -10, 5\<close> they are \<open>1.25\<close> and \<open>20\<close>.\<close>

theorem pitch_mean_and_range:
  assumes "map pitch data = map Some xs" and "xs \<noteq> []"
  shows "\<exists>res. analyze_scenario data name = Inr res \<and>
     map_of (euler (stats res)) ''pitch_mean'' = Some (Some (sum_list xs / real (length xs))) \<and>
     map_of (euler (stats res)) ''pitch_range'' = Some (Some (Max (set xs) - Min (set xs))) \<and>
     (xs = [0, 10, - 10, 5] \<longrightarrow>
        map_of (euler (stats res)) ''pitch_mean'' = Some (Some 1.25) \<and>
        map_of (euler (stats res)) ''pitch_range'' = Some (Some 20))"
proof -
  have ne: "data \<noteq> []" using assms by auto
  have th: "those (map pitch data) = Some xs"
    by (simp add: assms(1) those_map_Some)
  show ?thesis
    by (simp add: analyze_nonempty [OF ne] euler_stats_nonempty [OF ne] th mean_r_def)
qed

theorem pitch_mean_and_range_witness:
  "map pitch (map level_row [0, 10, - 10, 5]) = map Some [0, 10, - 10, 5] \<and>
   (\<exists>res. analyze_scenario (map level_row [0, 10, - 10, 5]) ''climbing'' = Inr res \<and>
      map_of (euler (stats res)) ''pitch_mean'' = Some (Some 1.25) \<and>
      map_of (euler (stats res)) ''pitch_range'' = Some (Some 20))"
proof -
  have h: "map pitch (map level_row [0, 10, - 10, 5]) = map Some [0, 10, - 10, 5]"
    by (simp add: level_row_def mk_row_def cell_def)
  have n: "[0, 10, - 10, 5 :: real] \<noteq> []" by simp
  from pitch_mean_and_range [OF h n, of "''climbing''"] h show ?thesis
    by blast
qed

text \<open>Claim C7. Whenever the analysis returns (it does for every table with a row), the time
  axis of a table of \<open>n\<close> rows is \<open>i / 5\<close> for the row indices \<open>i = 0, \<dots>, n - 1\<close>; for ten rows
  it is \<open>0.0, 0.2, \<dots>, 1.8\<close>.\<close>

theorem time_axis:
  "(data \<noteq> [] \<longrightarrow> (\<exists>res. analyze_scenario data name = Inr res)) \<and>
   (\<forall>res. analyze_scenario data name = Inr res \<longrightarrow>
      time res = map (\<lambda>i. Some (real i / sample_rate)) [0..<length data] \<and>
      sample_rate = 5 \<and>
      (length data = 10 \<longrightarrow>
         time res = [Some 0, Some 0.2, Some 0.4, Some 0.6, Some 0.8,
                     Some 1.0, Some 1.2, Some 1.4, Some 1.6, Some 1.8]))"
proof (intro conjI allI impI)
  assume "data \<noteq> []"
  then show "\<exists>res. analyze_scenario data name = Inr res"
    by (simp add: analyze_nonempty)
next
  fix res assume r: "analyze_scenario data name = Inr res"
  then have ne: "data \<noteq> []" by (auto simp: analyze_empty)
  from r show t: "time res = map (\<lambda>i. Some (real i / sample_rate)) [0..<length data]"
    by (auto simp: analyze_nonempty [OF ne] sample_rate_def)
  show "sample_rate = 5" by (simp add: sample_rate_def)
  assume "length data = 10"
  then have "[0..<length data] = [0, 1, 2, 3, 4, 5, 6, 7, 8, 9]"
    by (simp add: upt_rec)
  then show "time res = [Some 0, Some 0.2, Some 0.4, Some 0.6, Some 0.8,
                     Some 1.0, Some 1.2, Some 1.4, Some 1.6, Some 1.8]"
    by (simp add: t sample_rate_def)
qed

theorem time_axis_witness:
  "map level_row [0, 1, 2, 3, 4, 5, 6, 7, 8, 9] \<noteq> [] \<and>
   length (map level_row [0, 1, 2, 3, 4, 5, 6, 7, 8, 9]) = 10 \<and>
   (\<exists>res. analyze_scenario (map level_row [0, 1, 2, 3, 4, 5, 6, 7, 8, 9]) ''cruising'' = Inr res \<and>
      time res = [Some 0, Some 0.2, Some 0.4, Some 0.6, Some 0.8,
                  Some 1.0, Some 1.2, Some 1.4, Some 1.6, Some 1.8])"
proof -
  note t = time_axis [of "map level_row [0, 1, 2, 3, 4, 5, 6, 7, 8, 9]" "''cruising''"]
  have ne: "map level_row [0, 1, 2, 3, 4, 5, 6, 7, 8, 9] \<noteq> []" by simp
  have len: "length (map level_row [0, 1, 2, 3, 4, 5, 6, 7, 8, 9]) = 10" by simp
  from t ne obtain res where
    r: "analyze_scenario (map level_row [0, 1, 2, 3, 4, 5, 6, 7, 8, 9]) ''cruising'' = Inr res"
    by blast
  with t len have "time res = [Some 0, Some 0.2, Some 0.4, Some 0.6, Some 0.8,
                  Some 1.0, Some 1.2, Some 1.4, Some 1.6, Some 1.8]"
    by blast
  with r ne len show ?thesis by blast
qed

text \<open>Claim C5, as amended. For a table of \<open>n > 0\<close> equal rows whose roll, pitch and heading are
  finite numbers, the analysis returns, the range of every Euler column is exactly zero,
  and every quaternion row is the same. (The standard deviations are left out: they are
  computed here in exact arithmetic, and numpy rounds the mean.)\<close>

theorem constant_dataset_zero_range:
  assumes "data = replicate n row" and "0 < n"
    and "pitch row = Some p" and "roll row = Some r" and "heading_true row = Some y"
  shows "\<exists>res. analyze_scenario data name = Inr res \<and>
     list_all (\<lambda>key. map_of (euler (stats res)) key = Some (Some 0))
       [''pitch_range'', ''roll_range'', ''heading_range''] \<and>
     (\<exists>q. quaternions res = replicate n q)"
proof -
  have ne: "data \<noteq> []" using assms(1,2) by auto
  have cols: "those (map pitch data) = Some (replicate n p)"
    "those (map roll data) = Some (replicate n r)"
    "those (map heading_true data) = Some (replicate n y)"
    using assms by (simp_all add: those_replicate_Some)
  have qr: "quat_rows data =
      replicate n (projr (quat_row [pitch row, roll row, heading_true row]))"
    unfolding quat_rows_def assms(1) map_replicate_const ..
  have e: "euler_stats (map (\<lambda>row. [pitch row, roll row, heading_true row]) data) = Inr
     [(''pitch_mean'', Some (mean_r (replicate n p))),
      (''pitch_std'', Some (std_r (replicate n p))),
      (''pitch_range'', Some 0),
      (''roll_mean'', Some (mean_r (replicate n r))),
      (''roll_std'', Some (std_r (replicate n r))),
      (''roll_range'', Some 0),
      (''heading_mean'', Some (mean_r (replicate n y))),
      (''heading_std'', Some (std_r (replicate n y))),
      (''heading_range'', Some 0)]"
    by (simp only: euler_stats_nonempty [OF ne] cols)
       (simp add: set_replicate_pos assms(2))
  have "analyze_scenario data name = Inr
     \<lparr>time = map (\<lambda>i. Some (real i / 5)) [0..<length data],
      euler_data = map (\<lambda>row. [pitch row, roll row, heading_true row]) data,
      quaternions = quat_rows data,
      angular_rates = map (\<lambda>row. [P row, Q row, R row]) data,
      stats = \<lparr>euler = projr (euler_stats (map (\<lambda>row. [pitch row, roll row, heading_true row]) data)),
               rates = projr (rates_stats (map (\<lambda>row. [P row, Q row, R row]) data)),
               quaternion = projr (quaternion_stats (quat_rows data))\<rparr>,
      scenario = name\<rparr>"
    using ne by (rule analyze_nonempty)
  moreover have "list_all (\<lambda>key. map_of (projr (euler_stats
        (map (\<lambda>row. [pitch row, roll row, heading_true row]) data))) key = Some (Some 0))
       [''pitch_range'', ''roll_range'', ''heading_range'']"
    by (simp only: e) simp
  moreover have "\<exists>q. quat_rows data = replicate n q"
    using qr by blast
  ultimately show ?thesis by simp
qed

theorem constant_dataset_zero_range_witness:
  "(0 :: nat) < 3 \<and>
   pitch (attitude_row (Some 5) (Some 90) (Some 180)) = Some 5 \<and>
   roll (attitude_row (Some 5) (Some 90) (Some 180)) = Some 90 \<and>
   heading_true (attitude_row (Some 5) (Some 90) (Some 180)) = Some 180 \<and>
   (\<exists>res. analyze_scenario (replicate 3 (attitude_row (Some 5) (Some 90) (Some 180))) ''cruising''
        = Inr res \<and>
      map_of (euler (stats res)) ''pitch_range'' = Some (Some 0) \<and>
      map_of (euler (stats res)) ''roll_range'' = Some (Some 0) \<and>
      map_of (euler (stats res)) ''heading_range'' = Some (Some 0) \<and>
      (\<exists>q. quaternions res = replicate 3 q))"
proof -
  have n: "(0 :: nat) < 3" by simp
  have a: "pitch (attitude_row (Some 5) (Some 90) (Some 180)) = Some 5"
    "roll (attitude_row (Some 5) (Some 90) (Some 180)) = Some 90"
    "heading_true (attitude_row (Some 5) (Some 90) (Some 180)) = Some 180"
    by (simp_all add: attitude_row_simps)
  from constant_dataset_zero_range [OF refl n a, of "''cruising''"]
  obtain res where
    "analyze_scenario (replicate 3 (attitude_row (Some 5) (Some 90) (Some 180))) ''cruising''
        = Inr res"
    "map_of (euler (stats res)) ''pitch_range'' = Some (Some 0)"
    "map_of (euler (stats res)) ''roll_range'' = Some (Some 0)"
    "map_of (euler (stats res)) ''heading_range'' = Some (Some 0)"
    "\<exists>q. quaternions res = replicate 3 q"
    by auto
  with n a show ?thesis by blast
qed

text \<open>Claim C5 as stated fails for two equal rows whose pitch is NaN: \<^verbatim>\<open>pitch_std\<close> and
  \<^verbatim>\<open>pitch_range\<close> are NaN, not zero.\<close>

theorem nan_constant_dataset_counterexample:
  "map_sum id (\<lambda>res. map_of (euler (stats res)) ''pitch_std'')
     (analyze_scenario (replicate 2 (attitude_row None (Some 0) (Some 0))) ''cruising'') =
   Inr (Some None) \<and>
   map_sum id (\<lambda>res. map_of (euler (stats res)) ''pitch_range'')
     (analyze_scenario (replicate 2 (attitude_row None (Some 0) (Some 0))) ''cruising'') =
   Inr (Some None)"
proof -
  have ne: "replicate 2 (attitude_row None (Some 0) (Some 0)) \<noteq> []" by simp
  show ?thesis
    by (simp only: analyze_nonempty [OF ne] euler_stats_nonempty [OF ne])
       (simp add: attitude_row_simps those_replicate_None)
qed

subsection \<open>The quaternions\<close>

text \<open>Claim C2, as amended. For every row, the quaternion is the composition of the rotations
  by roll about x, by pitch about y and by heading about z, the angles in degrees, taken
  about the axes of the fixed frame (the library's meaning of the lower-case sequence
  \<^verbatim>\<open>xyz\<close>): the product of the elementary quaternions of z, y and x in that order, with
  the components written out. A NaN among the three angles makes every component NaN.\<close>

theorem quaternion_is_extrinsic_xyz:
  assumes "analyze_scenario data name = Inr res" and "i < length data"
  shows "quaternions res ! i =
           (case (roll (data ! i), pitch (data ! i), heading_true (data ! i)) of
              (Some r, Some p, Some y) \<Rightarrow>
                map Some (as_quat (extrinsic_xyz (r * pi / 180) (p * pi / 180) (y * pi / 180)))
            | _ \<Rightarrow> [None, None, None, None]) \<and>
         as_quat (extrinsic_xyz a b c) =
           [sin (a / 2) * cos (b / 2) * cos (c / 2) - cos (a / 2) * sin (b / 2) * sin (c / 2),
            cos (a / 2) * sin (b / 2) * cos (c / 2) + sin (a / 2) * cos (b / 2) * sin (c / 2),
            cos (a / 2) * cos (b / 2) * sin (c / 2) - sin (a / 2) * sin (b / 2) * cos (c / 2),
            cos (a / 2) * cos (b / 2) * cos (c / 2) + sin (a / 2) * sin (b / 2) * sin (c / 2)]"
proof
  note q = quaternions_nth [OF assms]
  show "quaternions res ! i =
      (case (roll (data ! i), pitch (data ! i), heading_true (data ! i)) of
         (Some r, Some p, Some y) \<Rightarrow>
           map Some (as_quat (extrinsic_xyz (r * pi / 180) (p * pi / 180) (y * pi / 180)))
       | _ \<Rightarrow> [None, None, None, None])"
  proof (cases "pitch (data ! i) = None \<or> roll (data ! i) = None \<or> heading_true (data ! i) = None")
    case True
    then have "quaternions res ! i = [None, None, None, None]"
      using q by (simp only: quat_row_nan sum.inject)
    then show ?thesis using True by (auto split: option.splits)
  next
    case False
    then obtain r p y where
      s: "roll (data ! i) = Some r" "pitch (data ! i) = Some p" "heading_true (data ! i) = Some y"
      by auto
    then have "quaternions res ! i =
        map Some (as_quat (extrinsic_xyz (r * pi / 180) (p * pi / 180) (y * pi / 180)))"
      using q by (simp only: quat_row_numbers deg2rad_def sum.inject)
    then show ?thesis by (simp only: s prod.case option.case)
  qed
  show "as_quat (extrinsic_xyz a b c) =
      [sin (a / 2) * cos (b / 2) * cos (c / 2) - cos (a / 2) * sin (b / 2) * sin (c / 2),
       cos (a / 2) * sin (b / 2) * cos (c / 2) + sin (a / 2) * cos (b / 2) * sin (c / 2),
       cos (a / 2) * cos (b / 2) * sin (c / 2) - sin (a / 2) * sin (b / 2) * cos (c / 2),
       cos (a / 2) * cos (b / 2) * cos (c / 2) + sin (a / 2) * sin (b / 2) * sin (c / 2)]"
    by (simp only: extrinsic_xyz_components as_quat.simps)
qed

theorem quaternion_is_extrinsic_xyz_witness:
  "(0 :: nat) < length [attitude_row (Some 90) (Some 90) (Some 0)] \<and>
   (\<exists>res. analyze_scenario [attitude_row (Some 90) (Some 90) (Some 0)] ''rolling'' = Inr res \<and>
      quaternions res ! 0 =
        map Some (as_quat (extrinsic_xyz (90 * pi / 180) (90 * pi / 180) (0 * pi / 180))))"
proof -
  obtain res where
    r: "analyze_scenario [attitude_row (Some 90) (Some 90) (Some 0)] ''rolling'' = Inr res"
    by (simp add: analyze_nonempty)
  have i: "0 < length [attitude_row (Some 90) (Some 90) (Some 0)]" by simp
  from quaternion_is_extrinsic_xyz [OF r i, THEN conjunct1]
  have "quaternions res ! 0 =
      map Some (as_quat (extrinsic_xyz (90 * pi / 180) (90 * pi / 180) (0 * pi / 180)))"
    by (simp add: attitude_row_simps del: mult_eq_0_iff)
  with r i show ?thesis by blast
qed

text \<open>Claim C2 as stated fails: for roll 90, pitch 90, heading 0 the program's quaternion has
  the component \<open>z = -1/2\<close>, the intrinsic composition x, then y, then z has \<open>z = 1/2\<close>.\<close>

theorem intrinsic_order_counterexample:
  "map_sum id quaternions
     (analyze_scenario [attitude_row (Some 90) (Some 90) (Some 0)] ''rolling'') =
     Inr [[Some (1 / 2), Some (1 / 2), Some (- 1 / 2), Some (1 / 2)]] \<and>
   map Some (as_quat (intrinsic_xyz (90 * pi / 180) (90 * pi / 180) (0 * pi / 180))) =
     [Some (1 / 2), Some (1 / 2), Some (1 / 2), Some (1 / 2)]"
proof (intro conjI)
  have "quat_rows [attitude_row (Some 90) (Some 90) (Some 0)] =
      [[Some (1 / 2), Some (1 / 2), Some (- 1 / 2), Some (1 / 2)]]"
    by (simp add: quat_rows_def attitude_row_simps from_euler_xyz extrinsic_at_right_angles)
  then show "map_sum id quaternions
     (analyze_scenario [attitude_row (Some 90) (Some 90) (Some 0)] ''rolling'') =
     Inr [[Some (1 / 2), Some (1 / 2), Some (- 1 / 2), Some (1 / 2)]]"
    by (simp only: quaternions_rows list.distinct not_False_eq_True)
  have "intrinsic_xyz (90 * pi / 180) (90 * pi / 180) (0 * pi / 180) = (1 / 2, 1 / 2, 1 / 2, 1 / 2)"
    using intrinsic_at_right_angles by (simp add: deg2rad_def)
  then show "map Some (as_quat (intrinsic_xyz (90 * pi / 180) (90 * pi / 180) (0 * pi / 180))) =
     [Some (1 / 2), Some (1 / 2), Some (1 / 2), Some (1 / 2)]"
    by simp
qed

text \<open>Claim C9, as amended. For every row whose roll, pitch and heading are finite numbers
  (neither NaN nor infinite), the quaternion has unit norm within \<open>10\<^sup>-\<^sup>6\<close>.\<close>

theorem unit_norm_for_numbers:
  assumes "analyze_scenario data name = Inr res" and "i < length data"
    and "roll (data ! i) = Some r" and "pitch (data ! i) = Some p"
    and "heading_true (data ! i) = Some y"
  shows "unit_norm_within (1 / 10 ^ 6) (quaternions res ! i)"
proof -
  have "quaternions res ! i =
      map Some (as_quat (extrinsic_xyz (deg2rad r) (deg2rad p) (deg2rad y)))"
    using quaternions_nth [OF assms(1,2)] assms(3-5)
    by (simp only: quat_row_numbers sum.inject)
  then show ?thesis
    by (simp add: unit_norm_within_def those_map_Some quat_norm_as_quat norm2_extrinsic_xyz)
qed

theorem unit_norm_for_numbers_witness:
  "roll (attitude_row (Some 90) (Some 90) (Some 0)) = Some 90 \<and>
   pitch (attitude_row (Some 90) (Some 90) (Some 0)) = Some 90 \<and>
   heading_true (attitude_row (Some 90) (Some 90) (Some 0)) = Some 0 \<and>
   (\<exists>res. analyze_scenario [attitude_row (Some 90) (Some 90) (Some 0)] ''rolling'' = Inr res \<and>
      unit_norm_within (1 / 10 ^ 6) (quaternions res ! 0))"
proof -
  obtain res where
    r: "analyze_scenario [attitude_row (Some 90) (Some 90) (Some 0)] ''rolling'' = Inr res"
    by (simp add: analyze_nonempty)
  have i: "0 < length [attitude_row (Some 90) (Some 90) (Some 0)]" by simp
  have a: "roll ([attitude_row (Some 90) (Some 90) (Some 0)] ! 0) = Some 90"
    "pitch ([attitude_row (Some 90) (Some 90) (Some 0)] ! 0) = Some 90"
    "heading_true ([attitude_row (Some 90) (Some 90) (Some 0)] ! 0) = Some 0"
    by (simp_all add: attitude_row_simps)
  from unit_norm_for_numbers [OF r i a] r a show ?thesis
    by auto
qed

text \<open>Claim C9 as stated fails for a sample whose heading is NaN: every component of its
  quaternion is NaN, and no comparison with the tolerance holds.\<close>

theorem nan_sample_counterexample:
  "map_sum id (\<lambda>res. map (unit_norm_within (1 / 10 ^ 6)) (quaternions res))
     (analyze_scenario [attitude_row (Some 0) (Some 0) None] ''cruising'') = Inr [False]"
proof -
  have "quat_rows [attitude_row (Some 0) (Some 0) None] = [[None, None, None, None]]"
    by (simp add: quat_rows_def attitude_row_simps)
  then show ?thesis
    by (simp add: analyze_nonempty unit_norm_within_def)
qed

text \<open>Claim C1 fails on the code. For a level row and a row turned by 180 degrees of heading
  the library's rows are \<open>(x, y, z, w) = (0, 0, 0, 1)\<close> and \<open>(0, 0, 1, 0)\<close>; the entry \<^verbatim>\<open>w_std\<close>
  is the deviation of the first components, zero, while the scalar components \<open>1, 0\<close>
  (the last of each row) have the deviation \<open>1/2\<close>.\<close>

theorem w_std_reports_x_component:
  "map_sum id quaternions
     (analyze_scenario
        [attitude_row (Some 0) (Some 0) (Some 0), attitude_row (Some 0) (Some 0) (Some 180)]
        ''rolling'') =
     Inr [[Some 0, Some 0, Some 0, Some 1], [Some 0, Some 0, Some 1, Some 0]] \<and>
   map_sum id (\<lambda>res. map_of (quaternion (stats res)) ''w_std'')
     (analyze_scenario
        [attitude_row (Some 0) (Some 0) (Some 0), attitude_row (Some 0) (Some 0) (Some 180)]
        ''rolling'') =
     Inr (Some (Some 0)) \<and>
   map_sum id (\<lambda>res. np_std (map (\<lambda>q. q ! 3) (quaternions res)))
     (analyze_scenario
        [attitude_row (Some 0) (Some 0) (Some 0), attitude_row (Some 0) (Some 0) (Some 180)]
        ''rolling'') =
     Inr (Inr (Some (1 / 2)))"
proof (intro conjI)
  show "map_sum id quaternions
     (analyze_scenario
        [attitude_row (Some 0) (Some 0) (Some 0), attitude_row (Some 0) (Some 0) (Some 180)]
        ''rolling'') =
     Inr [[Some 0, Some 0, Some 0, Some 1], [Some 0, Some 0, Some 1, Some 0]]"
    by (simp only: quaternions_rows quat_rows_turn list.distinct not_False_eq_True)
  show "map_sum id (\<lambda>res. map_of (quaternion (stats res)) ''w_std'')
     (analyze_scenario
        [attitude_row (Some 0) (Some 0) (Some 0), attitude_row (Some 0) (Some 0) (Some 180)]
        ''rolling'') =
     Inr (Some (Some 0))"
    by (simp only: w_std_key quat_rows_turn list.distinct not_False_eq_True)
       (simp add: std_r_def mean_r_def)
  show "map_sum id (\<lambda>res. np_std (map (\<lambda>q. q ! 3) (quaternions res)))
     (analyze_scenario
        [attitude_row (Some 0) (Some 0) (Some 0), attitude_row (Some 0) (Some 0) (Some 180)]
        ''rolling'') =
     Inr (Inr (Some (1 / 2)))"
    by (simp only: scalar_std_key quat_rows_turn list.distinct not_False_eq_True)
       (simp add: np_std_def std_half)
qed

subsection \<open>The loop of main\<close>

lemma printed_step: "printed (step e st sc) = printed st @ scenario_output e sc"
  by (simp add: step_def scenario_output_def split: prod.splits sum.splits)

lemma printed_foldl: "printed (foldl (step e) st scs) = printed st @ concat (map (scenario_output e) scs)"
  by (induction scs arbitrary: st) (simp_all add: printed_step)

lemma printed_main: "printed (main e) = concat (map (scenario_output e) scenarios)"
  by (simp add: main_def printed_foldl)

lemma all_results_step: "all_results (step e st sc) = all_results st @ scenario_result e sc"
  by (simp add: step_def scenario_result_def split: prod.splits sum.splits)

lemma all_results_foldl:
  "all_results (foldl (step e) st scs) = all_results st @ concat (map (scenario_result e) scs)"
  by (induction scs arbitrary: st) (simp_all add: all_results_step)

lemma all_results_main: "all_results (main e) = concat (map (scenario_result e) scenarios)"
  by (simp add: main_def all_results_foldl)

lemma try_body_missing: "files e f = Missing \<Longrightarrow> try_body e n f = ([Analyzing n], Inl FileNotFoundError)"
  by (simp add: try_body_def read_xplane_data_def)

lemma announced_once:
  "filter (\<lambda>ev. \<exists>n. ev = Analyzing n) (scenario_output e sc) = [Analyzing (fst sc)]"
  by (cases "handler (fst sc) OSError")
     (auto simp: scenario_output_def try_body_def split: sum.splits error.splits elim: handler.elims)

lemma filter_concat_map:
  "filter p (concat (map f xs)) = concat (map (\<lambda>x. filter p (f x)) xs)"
  by (induction xs) simp_all

lemma announced_all:
  "filter (\<lambda>ev. \<exists>n. ev = Analyzing n) (printed (main e)) = map (\<lambda>sc. Analyzing (fst sc)) scenarios"
  by (simp add: printed_main filter_concat_map announced_once scenarios_def)

lemma names_distinct: "distinct (map fst scenarios)"
  by (simp add: scenarios_def)

text \<open>Claim C10. A file that exists and has no data line is parsed into a table of no rows;
  the analysis of that table raises IndexError, and the loop reports the error for the
  scenario and stores no results for it.\<close>

theorem no_data_lines_is_analysis_error:
  assumes "files e filepath = Lines lines"
    and "\<forall>line \<in> set lines. strip line = [] \<or> CHR ''|'' \<notin> set line \<or> str_in ''pitch'' line"
  shows "read_xplane_data e filepath = Inr [] \<and>
         analyze_scenario [] name = Inl IndexError \<and>
         printed (step e st (name, filepath)) = printed st @ [Analyzing name, ErrorMsg name IndexError] \<and>
         all_results (step e st (name, filepath)) = all_results st"
proof -
  have "filter is_data_line lines = []"
    using assms(2) by (auto simp: filter_empty_conv is_data_line_def)
  then have rd: "read_xplane_data e filepath = Inr []"
    using assms(1) by (simp add: read_xplane_data_def data_lines_def DataFrame_def)
  then have "try_body e name filepath = ([Analyzing name], Inl IndexError)"
    by (simp add: try_body_def analyze_empty)
  then show ?thesis
    using rd by (simp add: analyze_empty step_def)
qed

theorem no_data_lines_is_analysis_error_witness:
  "files example_env ''climbing_data.txt'' =
     Lines [''pitch | roll\<newline>'', ''\<newline>'', ''no separator here\<newline>''] \<and>
   list_all (\<lambda>line. strip line = [] \<or> CHR ''|'' \<notin> set line \<or> str_in ''pitch'' line)
     [''pitch | roll\<newline>'', ''\<newline>'', ''no separator here\<newline>''] \<and>
   read_xplane_data example_env ''climbing_data.txt'' = Inr [] \<and>
   printed (step example_env \<lparr>printed = [], all_results = []\<rparr> (''climbing'', ''climbing_data.txt''))
     = [Analyzing ''climbing'', ErrorMsg ''climbing'' IndexError]"
proof -
  have f: "files example_env ''climbing_data.txt'' =
     Lines [''pitch | roll\<newline>'', ''\<newline>'', ''no separator here\<newline>'']"
    by (simp add: example_env_def)
  have h: "\<forall>line \<in> set [''pitch | roll\<newline>'', ''\<newline>'', ''no separator here\<newline>''].
      strip line = [] \<or> CHR ''|'' \<notin> set line \<or> str_in ''pitch'' line"
    by (simp add: strip_def is_space_def)
  have l: "list_all (\<lambda>line. strip line = [] \<or> CHR ''|'' \<notin> set line \<or> str_in ''pitch'' line)
     [''pitch | roll\<newline>'', ''\<newline>'', ''no separator here\<newline>'']"
    using h unfolding list_all_iff .
  note r = no_data_lines_is_analysis_error [OF f h, of "''climbing''" "\<lparr>printed = [], all_results = []\<rparr>"]
  have r1: "read_xplane_data example_env ''climbing_data.txt'' = Inr []"
    using r by (rule conjunct1)
  have r2: "printed (step example_env \<lparr>printed = [], all_results = []\<rparr> (''climbing'', ''climbing_data.txt''))
     = [Analyzing ''climbing'', ErrorMsg ''climbing'' IndexError]"
    using r by simp
  show ?thesis
    by (intro conjI f l r1 r2)
qed

text \<open>Claim C8. Whatever the environment, the program announces the four scenarios in order
  and ends; a scenario whose file is missing is announced, then warned about, and has
  no results.\<close>

theorem missing_file_warned_and_skipped:
  "filter (\<lambda>ev. \<exists>n. ev = Analyzing n) (printed (main e)) = map (\<lambda>sc. Analyzing (fst sc)) scenarios \<and>
   length scenarios = 4 \<and>
   (\<forall>sc \<in> set scenarios. files e (snd sc) = Missing \<longrightarrow>
      (\<exists>before after. printed (main e) = before @ [Analyzing (fst sc), Warning (fst sc)] @ after) \<and>
      fst sc \<notin> fst ` set (all_results (main e)))"
proof (intro conjI ballI impI)
  show "filter (\<lambda>ev. \<exists>n. ev = Analyzing n) (printed (main e)) = map (\<lambda>sc. Analyzing (fst sc)) scenarios"
    by (rule announced_all)
  show "length scenarios = 4" by (simp add: scenarios_def)
next
  fix sc assume sc: "sc \<in> set scenarios" and miss: "files e (snd sc) = Missing"
  have tb: "try_body e (fst sc) (snd sc) = ([Analyzing (fst sc)], Inl FileNotFoundError)"
    using miss by (rule try_body_missing)
  then have out: "scenario_output e sc = [Analyzing (fst sc), Warning (fst sc)]"
    by (simp add: scenario_output_def)
  obtain xs ys where sp: "scenarios = xs @ sc # ys" using sc by (auto dest: split_list)
  have "concat (map (scenario_output e) (xs @ sc # ys)) =
      concat (map (scenario_output e) xs) @ [Analyzing (fst sc), Warning (fst sc)] @
      concat (map (scenario_output e) ys)"
    by (simp add: out)
  then have "printed (main e) =
      concat (map (scenario_output e) xs) @ [Analyzing (fst sc), Warning (fst sc)] @
      concat (map (scenario_output e) ys)"
    unfolding printed_main sp .
  then show "\<exists>before after. printed (main e) = before @ [Analyzing (fst sc), Warning (fst sc)] @ after"
    by blast
  show "fst sc \<notin> fst ` set (all_results (main e))"
  proof
    assume "fst sc \<in> fst ` set (all_results (main e))"
    then obtain sc' res where sc': "sc' \<in> set scenarios" and
      r: "(fst sc, res) \<in> set (scenario_result e sc')"
      by (auto simp: all_results_main)
    then have "fst sc' = fst sc"
      by (auto simp: scenario_result_def split: prod.splits sum.splits)
    then have "sc' = sc"
      using sc sc' names_distinct by (meson distinct_map inj_onD)
    then show False using r tb by (simp add: scenario_result_def)
  qed
qed

theorem missing_file_warned_and_skipped_witness:
  "(''rolling'', ''rolling_data.txt'') \<in> set scenarios \<and>
   files example_env ''rolling_data.txt'' = Missing \<and>
   (\<exists>before after. printed (main example_env) =
      before @ [Analyzing ''rolling'', Warning ''rolling''] @ after) \<and>
   ''rolling'' \<notin> fst ` set (all_results (main example_env))"
proof -
  have m: "(''rolling'', ''rolling_data.txt'') \<in> set scenarios"
    by (simp add: scenarios_def)
  have f: "files example_env (snd (''rolling'', ''rolling_data.txt'')) = Missing"
    by (simp add: example_env_def)
  have f': "files example_env ''rolling_data.txt'' = Missing"
    using f by simp
  have "\<forall>sc \<in> set scenarios. files example_env (snd sc) = Missing \<longrightarrow>
      (\<exists>before after. printed (main example_env) = before @ [Analyzing (fst sc), Warning (fst sc)] @ after) \<and>
      fst sc \<notin> fst ` set (all_results (main example_env))"
    using missing_file_warned_and_skipped [of example_env] by (elim conjE)
  from bspec [OF this m] f
  have r: "(\<exists>before after. printed (main example_env) =
      before @ [Analyzing ''rolling'', Warning ''rolling''] @ after) \<and>
   ''rolling'' \<notin> fst ` set (all_results (main example_env))"
    by simp
  show ?thesis
    by (intro conjI m f' conjunct1 [OF r] conjunct2 [OF r])
qed

end
